theory Spec2Isabelle
  imports Main "HOL-Library.Sublist"
begin

section \<open>The audio sequencer (frontend/src/utils/AudioQueue.ts)\<close>

text \<open>
  The class \<^verbatim>\<open>AudioQueue\<close> is modelled as a record that is passed through every
  method. Its private fields keep their names. Four further fields record what the
  methods do to the outside world:
  \<^item> \<open>started\<close>: the payload of every \<^verbatim>\<open>new Audio(...)\<close> on which \<^verbatim>\<open>play()\<close> was
    called, in call order; an audio element is named by its index in this list;
  \<^item> \<open>sounding\<close>: the elements the browser is playing, that is, \<^verbatim>\<open>play()\<close> has been
    called and the element has neither ended, nor failed, nor been paused;
  \<^item> \<open>notified\<close>: the arguments of the calls of \<^verbatim>\<open>onPlaybackStateChange\<close>, in order;
  \<^item> \<open>errorsLogged\<close>: the number of calls of \<^verbatim>\<open>console.error\<close>.

  The browser calls (\<^verbatim>\<open>new AudioContext\<close>, \<^verbatim>\<open>createMediaElementSource\<close>, \<^verbatim>\<open>connect\<close>)
  are taken to return normally. Strings are lists of 8-bit characters.
\<close>

record audio_queue =
  queue :: "string list"
  isPlaying :: bool
  currentAudio :: "nat option"
  audioContext :: bool
  sourceNode :: "nat option"
  hasCallback :: bool
  started :: "string list"
  sounding :: "nat list"
  notified :: "bool list"
  errorsLogged :: nat

text \<open>The constructor; its argument says whether a callback was passed.\<close>

definition AudioQueue :: "bool \<Rightarrow> audio_queue" where
  "AudioQueue cb =
     \<lparr>queue = [], isPlaying = False, currentAudio = None, audioContext = False,
      sourceNode = None, hasCallback = cb, started = [], sounding = [],
      notified = [], errorsLogged = 0\<rparr>"

text \<open>\<^verbatim>\<open>if (this.onPlaybackStateChange) this.onPlaybackStateChange(b)\<close>\<close>

definition onPlaybackStateChange :: "bool \<Rightarrow> audio_queue \<Rightarrow> audio_queue" where
  "onPlaybackStateChange b s =
     (if hasCallback s then s\<lparr>notified := notified s @ [b]\<rparr> else s)"

definition initAudioContext :: "audio_queue \<Rightarrow> audio_queue" where
  "initAudioContext s = (if \<not> audioContext s then s\<lparr>audioContext := True\<rparr> else s)"

text \<open>
  \<^verbatim>\<open>playNext\<close>. \<^verbatim>\<open>queue.shift()\<close> removes the head; the test \<^verbatim>\<open>!base64Audio\<close> is
  true of the empty string, which is then dropped without being played.
\<close>

definition playNext :: "audio_queue \<Rightarrow> audio_queue" where
  "playNext s =
     (if isPlaying s then s
      else case queue s of
        [] \<Rightarrow> onPlaybackStateChange False (s\<lparr>isPlaying := False\<rparr>)
      | base64Audio # rest \<Rightarrow>
          if base64Audio = [] then s\<lparr>queue := rest\<rparr>
          else
            let s1 = onPlaybackStateChange True (s\<lparr>queue := rest, isPlaying := True\<rparr>);
                el = length (started s1);
                s2 = s1\<lparr>started := started s1 @ [base64Audio], currentAudio := Some el\<rparr>;
                s3 = (if audioContext s2 then s2\<lparr>sourceNode := Some el\<rparr> else s2)
            in s3\<lparr>sounding := sounding s3 @ [el]\<rparr>)"

definition enqueue :: "string \<Rightarrow> audio_queue \<Rightarrow> audio_queue" where
  "enqueue base64Audio s =
     (let s1 = initAudioContext s
      in playNext (s1\<lparr>queue := queue s1 @ [base64Audio]\<rparr>))"

text \<open>The three handlers that \<^verbatim>\<open>playNext\<close> attaches to each audio element.\<close>

definition onended :: "audio_queue \<Rightarrow> audio_queue" where
  "onended s = playNext (s\<lparr>isPlaying := False, currentAudio := None\<rparr>)"

definition onerror :: "audio_queue \<Rightarrow> audio_queue" where
  "onerror s =
     playNext (s\<lparr>errorsLogged := errorsLogged s + 1, isPlaying := False,
                 currentAudio := None\<rparr>)"

definition play_catch :: "audio_queue \<Rightarrow> audio_queue" where
  "play_catch s =
     playNext (s\<lparr>errorsLogged := errorsLogged s + 1, sourceNode := None,
                 isPlaying := False, currentAudio := None\<rparr>)"

text \<open>\<^verbatim>\<open>clear\<close>; \<^verbatim>\<open>currentAudio.pause()\<close> silences the current element.\<close>

definition clear :: "audio_queue \<Rightarrow> audio_queue" where
  "clear s =
     (let s1 = s\<lparr>queue := []\<rparr>;
          s2 = (case currentAudio s1 of
                  None \<Rightarrow> s1
                | Some el \<Rightarrow> s1\<lparr>sounding := removeAll el (sounding s1), currentAudio := None\<rparr>);
          s3 = s2\<lparr>sourceNode := None, isPlaying := False\<rparr>
      in onPlaybackStateChange False s3)"

definition getIsPlaying :: "audio_queue \<Rightarrow> bool" where
  "getIsPlaying s = isPlaying s"

subsection \<open>The browser's side\<close>

text \<open>
  What can happen to an \<^verbatim>\<open>AudioQueue\<close>: a method call, or the browser running one
  of the three handlers of an audio element \<open>el\<close>, because the element has ended, has
  failed with an \<^verbatim>\<open>error\<close> event, or has had its \<^verbatim>\<open>play()\<close> promise rejected. In
  each case the element is not sounding afterwards. The handlers are closures over
  the queue alone: they run whenever the browser signals, whether or not the element
  is still the current one, and a trace may hold any signals in any order. A source
  that cannot be loaded gives both the error event and the rejection.
\<close>

datatype audio_event =
  Enqueue string | Ended nat | Errored nat | PlayRejected nat | Clear

definition terminal :: "(audio_queue \<Rightarrow> audio_queue) \<Rightarrow> nat \<Rightarrow> audio_queue \<Rightarrow> audio_queue" where
  "terminal handler el s = handler (s\<lparr>sounding := removeAll el (sounding s)\<rparr>)"

fun step :: "audio_event \<Rightarrow> audio_queue \<Rightarrow> audio_queue" where
  "step (Enqueue base64Audio) s = enqueue base64Audio s"
| "step (Ended el) s = terminal onended el s"
| "step (Errored el) s = terminal onerror el s"
| "step (PlayRejected el) s = terminal play_catch el s"
| "step Clear s = clear s"

definition run :: "audio_event list \<Rightarrow> audio_queue \<Rightarrow> audio_queue" where
  "run evs s = fold step evs s"

text \<open>
  A signal is due when its element is sounding. A trace is orderly when every signal
  in it is due when it comes: every element signals once, while it plays.
\<close>

fun due :: "audio_event \<Rightarrow> audio_queue \<Rightarrow> bool" where
  "due (Ended el) s = (el \<in> set (sounding s))"
| "due (Errored el) s = (el \<in> set (sounding s))"
| "due (PlayRejected el) s = (el \<in> set (sounding s))"
| "due _ s = True"

fun orderly :: "audio_event list \<Rightarrow> audio_queue \<Rightarrow> bool" where
  "orderly [] s = True"
| "orderly (e # evs) s = (due e s \<and> orderly evs (step e s))"

text \<open>The payloads handed to \<^verbatim>\<open>enqueue\<close> in a trace, in arrival order.\<close>

fun arrivals :: "audio_event list \<Rightarrow> string list" where
  "arrivals [] = []"
| "arrivals (Enqueue b # evs) = b # arrivals evs"
| "arrivals (_ # evs) = arrivals evs"

fun is_clear :: "audio_event \<Rightarrow> bool" where
  "is_clear Clear = True"
| "is_clear _ = False"

text \<open>What \<^verbatim>\<open>playNext\<close> will ever play of a queue: its non-empty payloads.\<close>

definition playable :: "string list \<Rightarrow> string list" where
  "playable bs = filter (\<lambda>b. b \<noteq> []) bs"

text \<open>
  \<open>lineup s\<close> is what has been started followed by what is still to be started.
  \<^verbatim>\<open>playNext\<close> and the handlers only move the head of the queue into \<open>started\<close> (or
  drop it when it is empty), so they leave the lineup alone.
\<close>

definition lineup :: "audio_queue \<Rightarrow> string list" where
  "lineup s = started s @ playable (queue s)"

text \<open>
  The state is consistent when the flag, the current element and the browser agree:
  the queue is playing exactly when it holds a current element, and that element is
  the only one sounding.
\<close>

definition consistent :: "audio_queue \<Rightarrow> bool" where
  "consistent s \<longleftrightarrow>
     (isPlaying s \<longleftrightarrow> currentAudio s \<noteq> None) \<and>
     sounding s = (case currentAudio s of None \<Rightarrow> [] | Some el \<Rightarrow> [el])"



section \<open>JavaScript strings and arrays\<close>

text \<open>
  The string and array methods the client uses, with the receiver as first argument.
  \<^verbatim>\<open>substring\<close> clamps both indices to the string and swaps them when the first is
  the larger. \<^verbatim>\<open>indexOf\<close> gives the first index holding an equal value, or \<open>-1\<close>.
  \<^verbatim>\<open>trim\<close> removes white space and line terminators at both ends; of these the
  8-bit characters are 9 to 13, 32 and 160.
\<close>

definition startsWith :: "string \<Rightarrow> string \<Rightarrow> bool" where
  "startsWith s p = (take (length p) s = p)"

definition endsWith :: "string \<Rightarrow> string \<Rightarrow> bool" where
  "endsWith s p = (length p \<le> length s \<and> drop (length s - length p) s = p)"

definition substring :: "string \<Rightarrow> int \<Rightarrow> int \<Rightarrow> string" where
  "substring s a b =
     (let n = int (length s);
          a' = max 0 (min a n);
          b' = max 0 (min b n);
          lo = min a' b';
          hi = max a' b'
      in take (nat (hi - lo)) (drop (nat lo) s))"

fun indexOf :: "'a list \<Rightarrow> 'a \<Rightarrow> int" where
  "indexOf [] x = -1"
| "indexOf (y # ys) x =
     (if y = x then 0 else let i = indexOf ys x in if i = -1 then -1 else i + 1)"

text \<open>\<^verbatim>\<open>xs.splice(i, 1)\<close> for an index \<open>i\<close> that is not negative.\<close>

definition splice1 :: "'a list \<Rightarrow> int \<Rightarrow> 'a list" where
  "splice1 xs i = take (nat i) xs @ drop (nat i + 1) xs"

definition isWhiteSpace :: "char \<Rightarrow> bool" where
  "isWhiteSpace c = (of_char c \<in> {9, 10, 11, 12, 13, 32, 160 :: nat})"

definition trim :: "string \<Rightarrow> string" where
  "trim s = dropWhile isWhiteSpace (rev (dropWhile isWhiteSpace (rev s)))"

section \<open>The store (store/useLiveStore.ts) and its types (types)\<close>

datatype role = User | Model | OtherUser | System

record chat_message =
  id' :: string
  role :: role
  content :: string
  timestamp :: int

datatype streamer_state = Idle | Thinking | Speaking

datatype connection_status = Connecting | Connected | Error | Disconnected

text \<open>
  The store's state. Its field \<^verbatim>\<open>audioQueue\<close> is a second reference to the object the
  hook holds in \<^verbatim>\<open>audioQueueRef\<close>; the model keeps that object once, in the hook.
\<close>

record live_store =
  messages :: "chat_message list"
  streamerState :: streamer_state
  onlineCount :: int

definition useLiveStore :: live_store where
  "useLiveStore = \<lparr>messages = [], streamerState = Idle, onlineCount = 1\<rparr>"

definition addMessage :: "chat_message \<Rightarrow> live_store \<Rightarrow> live_store" where
  "addMessage msg state = state\<lparr>messages := messages state @ [msg]\<rparr>"

definition updateBotReply :: "string \<Rightarrow> live_store \<Rightarrow> live_store" where
  "updateBotReply chunk state =
     (let msgs = messages state
      in if length msgs = 0 then state\<lparr>messages := msgs\<rparr>
         else
           let lastMsg = msgs ! (length msgs - 1)
           in if role lastMsg = Model
              then state\<lparr>messages :=
                     msgs[length msgs - 1 := lastMsg\<lparr>content := content lastMsg @ chunk\<rparr>]\<rparr>
              else state\<lparr>messages := msgs\<rparr>)"

definition setStreamerState :: "streamer_state \<Rightarrow> live_store \<Rightarrow> live_store" where
  "setStreamerState st state = state\<lparr>streamerState := st\<rparr>"

definition setOnlineCount :: "int \<Rightarrow> live_store \<Rightarrow> live_store" where
  "setOnlineCount n state = state\<lparr>onlineCount := n\<rparr>"

definition clearMessages :: "live_store \<Rightarrow> live_store" where
  "clearMessages state = state\<lparr>messages := []\<rparr>"

section \<open>The connection hook (frontend/src/hooks/useWebSocket.ts)\<close>

text \<open>
  The hook's refs and state, the store it writes to, and the socket. \<open>wsRef\<close> holds
  the \<^verbatim>\<open>readyState\<close> of the current socket, \<open>wire\<close> the texts handed to \<^verbatim>\<open>ws.send\<close>.
  \<open>audioQueueRef\<close> is assigned once, when the hook is mounted, and never reset, so the
  tests \<^verbatim>\<open>audioQueueRef.current &&\<close> are true from then on.
  What a handler reads from its surroundings comes in an \<open>env\<close>: the value of
  \<^verbatim>\<open>uuidv4()\<close> and the clock (\<^verbatim>\<open>new Date()\<close>, \<^verbatim>\<open>Date.now()\<close>, in milliseconds).
\<close>

datatype ready_state = CONNECTING | OPEN | CLOSING | CLOSED

record env =
  uuid :: string
  now :: int

record client =
  roomId :: string
  status :: connection_status
  wsRef :: "ready_state option"
  isReceivingBotMessage :: bool
  sentMessagesRef :: "string list"
  audioQueueRef :: audio_queue
  store :: live_store
  wire :: "string list"

text \<open>The state once the hook is mounted: the first effect has built the queue.\<close>

definition mounted :: "string \<Rightarrow> client" where
  "mounted rid =
     \<lparr>roomId = rid, status = Disconnected, wsRef = None, isReceivingBotMessage = False,
      sentMessagesRef = [], audioQueueRef = AudioQueue True, store = useLiveStore,
      wire = []\<rparr>"

text \<open>The callback the hook gives to the queue.\<close>

definition playbackCallback :: "bool \<Rightarrow> client \<Rightarrow> client" where
  "playbackCallback playing c =
     (if playing then c\<lparr>store := setStreamerState Speaking (store c)\<rparr>
      else if \<not> isReceivingBotMessage c then c\<lparr>store := setStreamerState Idle (store c)\<rparr>
      else c\<lparr>store := setStreamerState Thinking (store c)\<rparr>)"

text \<open>
  A method of the queue called from the hook. The queue calls its callback while the
  method runs; the callback reads the receiving flag and writes the presentation
  state, neither of which the queue touches, so the model runs the callback on the
  calls the method has recorded, in their order.
\<close>

definition withAudioQueue :: "(audio_queue \<Rightarrow> audio_queue) \<Rightarrow> client \<Rightarrow> client" where
  "withAudioQueue method c =
     (let q = audioQueueRef c;
          q' = method q;
          calls = drop (length (notified q)) (notified q')
      in fold playbackCallback calls (c\<lparr>audioQueueRef := q'\<rparr>))"

text \<open>
  \<^verbatim>\<open>connect\<close>: nothing without a room; otherwise the socket held so far is closed
  and a new one, still connecting, takes its place in \<open>wsRef\<close>.
\<close>

definition connect :: "client \<Rightarrow> client" where
  "connect c =
     (if roomId c = [] then c
      else c\<lparr>status := Connecting, wsRef := Some CONNECTING\<rparr>)"

text \<open>
  The text of the connection notice: the template literal of \<^verbatim>\<open>ws.onopen\<close>, its
  characters beyond ASCII written by their code points.
\<close>

definition connectedNotice :: "string \<Rightarrow> string" where
  "connectedNotice rid =
     ''<U+5DF2><U+8FDE><U+63A5><U+623F><U+95F4> ['' @ rid @ ''] <U+1F389>''"

definition ws_onopen :: "env \<Rightarrow> client \<Rightarrow> client" where
  "ws_onopen e c =
     (let c1 = c\<lparr>status := Connected\<rparr>
      in c1\<lparr>store := addMessage
             \<lparr>id' = uuid e, role = System, content = connectedNotice (roomId c1),
              timestamp = now e\<rparr> (store c1)\<rparr>)"

definition ws_onclose :: "client \<Rightarrow> client" where
  "ws_onclose c = c\<lparr>status := Disconnected\<rparr>"

definition ws_onerror :: "client \<Rightarrow> client" where
  "ws_onerror c = c\<lparr>status := Error\<rparr>"

definition onmessage :: "env \<Rightarrow> string \<Rightarrow> client \<Rightarrow> client" where
  "onmessage e msg c =
     (if startsWith msg ''[USER:'' \<and> endsWith msg '']'' then
        let userMsg = substring msg 6 (int (length msg) - 1);
            sentIndex = indexOf (sentMessagesRef c) userMsg
        in if sentIndex \<noteq> -1
           then c\<lparr>sentMessagesRef := splice1 (sentMessagesRef c) sentIndex\<rparr>
           else c\<lparr>store := addMessage
                  \<lparr>id' = uuid e, role = OtherUser, content = userMsg, timestamp = now e\<rparr>
                  (store c)\<rparr>
      else if startsWith msg ''[AUDIO:'' then
        let base64Audio = substring msg 7 (int (length msg) - 1)
        in withAudioQueue (enqueue base64Audio) c
      else if msg = ''[EOF]'' then
        let c1 = c\<lparr>isReceivingBotMessage := False\<rparr>
        in if \<not> getIsPlaying (audioQueueRef c1)
           then c1\<lparr>store := setStreamerState Idle (store c1)\<rparr>
           else c1
      else if \<not> isReceivingBotMessage c then
        let c1 = c\<lparr>isReceivingBotMessage := True\<rparr>;
            c2 = c1\<lparr>store := addMessage
                   \<lparr>id' = uuid e, role = Model, content = msg, timestamp = now e\<rparr>
                   (store c1)\<rparr>
        in if \<not> getIsPlaying (audioQueueRef c2)
           then c2\<lparr>store := setStreamerState Thinking (store c2)\<rparr>
           else c2
      else c\<lparr>store := updateBotReply msg (store c)\<rparr>)"

definition sendMessage :: "env \<Rightarrow> string \<Rightarrow> client \<Rightarrow> client" where
  "sendMessage e text c =
     (if wsRef c = Some OPEN \<and> trim text \<noteq> [] then
        let c1 = c\<lparr>store := addMessage
                   \<lparr>id' = uuid e, role = User, content = text, timestamp = now e\<rparr>
                   (store c)\<rparr>;
            c2 = c1\<lparr>sentMessagesRef := sentMessagesRef c1 @ [text]\<rparr>
        in c2\<lparr>wire := wire c2 @ [text]\<rparr>
      else c)"

text \<open>\<^verbatim>\<open>App.handleConnect\<close>: clear the transcript, then connect.\<close>

definition handleConnect :: "client \<Rightarrow> client" where
  "handleConnect c = connect (c\<lparr>store := clearMessages (store c)\<rparr>)"

subsection \<open>What happens to the client\<close>

text \<open>
  The handler runs that make up a session, each with the environment it reads. The
  socket events are those of the current socket and set its \<^verbatim>\<open>readyState\<close>; the
  playback events are those of section one; \<open>Unmount\<close> is the cleanup of the hook's
  effects.
\<close>

datatype client_event =
  Connect | WsOpen | WsClose | WsError | WsMessage string | Send string
  | Playback audio_event | Unmount

fun cstep :: "env \<times> client_event \<Rightarrow> client \<Rightarrow> client" where
  "cstep (e, Connect) c = handleConnect c"
| "cstep (e, WsOpen) c =
     (case wsRef c of None \<Rightarrow> c | Some r \<Rightarrow> ws_onopen e (c\<lparr>wsRef := Some OPEN\<rparr>))"
| "cstep (e, WsClose) c =
     (case wsRef c of None \<Rightarrow> c | Some r \<Rightarrow> ws_onclose (c\<lparr>wsRef := Some CLOSED\<rparr>))"
| "cstep (e, WsError) c = (case wsRef c of None \<Rightarrow> c | Some r \<Rightarrow> ws_onerror c)"
| "cstep (e, WsMessage msg) c = onmessage e msg c"
| "cstep (e, Send text) c = sendMessage e text c"
| "cstep (e, Playback ev) c = withAudioQueue (step ev) c"
| "cstep (e, Unmount) c =
     (let c1 = withAudioQueue clear c
      in case wsRef c1 of None \<Rightarrow> c1 | Some r \<Rightarrow> c1\<lparr>wsRef := Some CLOSING\<rparr>)"

definition crun :: "(env \<times> client_event) list \<Rightarrow> client \<Rightarrow> client" where
  "crun tr c = fold cstep tr c"

text \<open>The branch of \<^verbatim>\<open>ws.onmessage\<close> that a raw message takes.\<close>

datatype frame = UserEcho string | AudioChunk string | StreamEnd | TextToken string

definition classify :: "string \<Rightarrow> frame" where
  "classify msg =
     (if startsWith msg ''[USER:'' \<and> endsWith msg '']''
        then UserEcho (substring msg 6 (int (length msg) - 1))
      else if startsWith msg ''[AUDIO:''
        then AudioChunk (substring msg 7 (int (length msg) - 1))
      else if msg = ''[EOF]'' then StreamEnd
      else TextToken msg)"






section \<open>The chat box (frontend/src/components/ChatBox.tsx)\<close>

text \<open>
  The state of the component that takes part in sending. \<open>timeouts\<close> holds the delays
  of the timers set by \<^verbatim>\<open>setTimeout\<close>; \<open>cooldownOver\<close> is what such a timer runs.
\<close>

record chat_box =
  inputText :: string
  isScrolledToBottom :: bool
  lastSendTime :: int
  isCooldown :: bool
  timeouts :: "int list"

definition ChatBox :: chat_box where
  "ChatBox =
     \<lparr>inputText = [], isScrolledToBottom = True, lastSendTime = 0, isCooldown = False,
      timeouts = []\<rparr>"

definition setInputText :: "string \<Rightarrow> chat_box \<Rightarrow> chat_box" where
  "setInputText text b = b\<lparr>inputText := text\<rparr>"

definition cooldownOver :: "chat_box \<Rightarrow> chat_box" where
  "cooldownOver b = b\<lparr>isCooldown := False\<rparr>"

fun handleSend :: "env \<Rightarrow> chat_box \<times> client \<Rightarrow> chat_box \<times> client" where
  "handleSend e (b, c) =
     (if now e - lastSendTime b < 2000 then
        (b\<lparr>isCooldown := True, timeouts := timeouts b @ [2000 - (now e - lastSendTime b)]\<rparr>, c)
      else if trim (inputText b) \<noteq> [] then
        (b\<lparr>inputText := [], lastSendTime := now e, isScrolledToBottom := True\<rparr>,
         sendMessage e (inputText b) c)
      else (b, c))"

text \<open>\<^verbatim>\<open>submit(text)\<close>: the user types the text and sends it.\<close>

definition submit :: "env \<Rightarrow> string \<Rightarrow> chat_box \<times> client \<Rightarrow> chat_box \<times> client" where
  "submit e text bc = handleSend e (setInputText text (fst bc), snd bc)"

section \<open>Properties of the audio sequencer\<close>

lemma run_snoc: "run (evs @ [e]) s = step e (run evs s)"
  by (simp add: run_def)

lemma run_Cons: "run (e # evs) s = run evs (step e s)"
  by (simp add: run_def)

lemma arrivals_snoc:
  "arrivals (evs @ [e]) = arrivals evs @ (case e of Enqueue b \<Rightarrow> [b] | _ \<Rightarrow> [])"
  by (induction evs rule: arrivals.induct) (auto split: audio_event.splits)


lemma due_terminal:
  "due (Ended el) s = (el \<in> set (sounding s))"
  "due (Errored el) s = (el \<in> set (sounding s))"
  "due (PlayRejected el) s = (el \<in> set (sounding s))"
  by simp_all

lemma consistent_init: "consistent (AudioQueue cb)"
  by (simp add: consistent_def AudioQueue_def)

lemma consistent_playNext:
  "consistent s \<Longrightarrow> consistent (playNext s)"
  by (auto simp: consistent_def playNext_def onPlaybackStateChange_def Let_def
           split: list.splits option.splits)

lemma consistent_enqueue: "consistent s \<Longrightarrow> consistent (enqueue b s)"
  unfolding enqueue_def Let_def
  by (rule consistent_playNext) (auto simp: consistent_def initAudioContext_def)

lemma consistent_terminal:
  assumes "consistent s" and el: "el \<in> set (sounding s)"
    and h: "\<And>t. handler t = playNext (t\<lparr>isPlaying := False, currentAudio := None\<rparr>)
              \<or> handler t = playNext (t\<lparr>errorsLogged := errorsLogged t + 1, isPlaying := False, currentAudio := None\<rparr>)
              \<or> handler t = playNext (t\<lparr>errorsLogged := errorsLogged t + 1, sourceNode := None, isPlaying := False, currentAudio := None\<rparr>)"
  shows "consistent (terminal handler el s)"
proof -
  from assms(1) el have cur: "currentAudio s = Some el" "sounding s = [el]"
    by (auto simp: consistent_def split: option.splits)
  let ?t = "s\<lparr>sounding := removeAll el (sounding s)\<rparr>"
  have c1: "consistent (?t\<lparr>isPlaying := False, currentAudio := None\<rparr>)"
    and c2: "consistent (?t\<lparr>errorsLogged := errorsLogged ?t + 1, isPlaying := False, currentAudio := None\<rparr>)"
    and c3: "consistent (?t\<lparr>errorsLogged := errorsLogged ?t + 1, sourceNode := None, isPlaying := False, currentAudio := None\<rparr>)"
    using cur by (simp_all add: consistent_def)
  from h [of ?t] c1 c2 c3 have "consistent (handler ?t)"
    by (auto intro: consistent_playNext)
  then show ?thesis by (simp add: terminal_def)
qed

lemma consistent_clear: "consistent s \<Longrightarrow> consistent (clear s)"
  by (auto simp: consistent_def clear_def onPlaybackStateChange_def Let_def
           split: option.splits)

lemma consistent_step:
  assumes "consistent s" "due e s"
  shows "consistent (step e s)"
  using assms
  by (cases e)
     (simp_all add: consistent_enqueue consistent_clear consistent_terminal
        onended_def onerror_def play_catch_def)

lemma consistent_run: "consistent s \<Longrightarrow> orderly evs s \<Longrightarrow> consistent (run evs s)"
  by (induction evs arbitrary: s) (simp_all add: run_def consistent_step)

lemma consistent_sounding: "consistent s \<Longrightarrow> length (sounding s) \<le> 1"
  by (simp add: consistent_def split: option.splits)

subsection \<open>Order of playback\<close>

lemma lineup_playNext: "lineup (playNext s) = lineup s"
  by (auto simp: lineup_def playable_def playNext_def onPlaybackStateChange_def Let_def
           split: list.splits)

lemma lineup_enqueue: "lineup (enqueue b s) = lineup s @ playable [b]"
  by (simp add: enqueue_def Let_def lineup_playNext)
     (simp add: lineup_def playable_def initAudioContext_def)

lemma lineup_terminal:
  assumes "\<And>t. lineup (handler t) = lineup t"
  shows "lineup (terminal handler el s) = lineup s"
  using assms by (simp add: terminal_def) (simp add: lineup_def)

lemma lineup_onended: "lineup (onended t) = lineup t"
  by (simp add: onended_def lineup_playNext) (simp add: lineup_def)

lemma lineup_onerror: "lineup (onerror t) = lineup t"
  by (simp add: onerror_def lineup_playNext) (simp add: lineup_def)

lemma lineup_play_catch: "lineup (play_catch t) = lineup t"
  by (simp add: play_catch_def lineup_playNext) (simp add: lineup_def)

lemma started_clear: "started (clear s) = started s"
  by (simp add: clear_def onPlaybackStateChange_def Let_def split: option.splits)

lemma queue_clear: "queue (clear s) = []"
  by (simp add: clear_def onPlaybackStateChange_def Let_def split: option.splits)

lemma lineup_clear: "lineup (clear s) = started s"
  by (simp add: lineup_def started_clear queue_clear playable_def)

lemmas lineup_simps =
  lineup_enqueue lineup_terminal lineup_onended lineup_onerror lineup_play_catch lineup_clear

lemma started_subseq_lineup: "subseq (started s) (lineup s)"
  unfolding lineup_def by (intro prefix_imp_subseq) simp

lemma lineup_subseq: "subseq (lineup (run evs (AudioQueue cb))) (arrivals evs)"
proof (induction evs rule: rev_induct)
  case Nil
  show ?case by (simp add: run_def lineup_def AudioQueue_def playable_def)
next
  case (snoc e evs)
  let ?s = "run evs (AudioQueue cb)"
  show ?case
  proof (cases e)
    case (Enqueue b)
    have "subseq (lineup ?s @ playable [b]) (arrivals evs @ [b])"
      using snoc.IH by (intro list_emb_append_mono) (simp_all add: playable_def)
    then show ?thesis using Enqueue by (simp add: run_snoc arrivals_snoc lineup_simps)
  next
    case Clear
    have "subseq (started ?s) (arrivals evs)"
      using started_subseq_lineup snoc.IH by (rule subseq_order.trans)
    then show ?thesis using Clear by (simp add: run_snoc arrivals_snoc lineup_simps)
  qed (use snoc.IH in \<open>simp_all add: run_snoc arrivals_snoc lineup_simps\<close>)
qed

lemma lineup_no_clear:
  "\<not> list_ex is_clear evs \<Longrightarrow> lineup (run evs (AudioQueue cb)) = playable (arrivals evs)"
proof (induction evs rule: rev_induct)
  case Nil
  show ?case by (simp add: run_def lineup_def AudioQueue_def playable_def)
next
  case (snoc e evs)
  then show ?case
    by (cases e) (simp_all add: run_snoc arrivals_snoc lineup_simps playable_def)
qed

text \<open>
  What holds of the order of playback. Whatever is enqueued and whatever handlers the
  browser runs, the fragments are started in the order in which they arrived: the
  started fragments are a subsequence of the arrivals, and when \<^verbatim>\<open>clear\<close> is never
  called the started fragments followed by the playable ones still queued are exactly
  the playable arrivals. In an orderly trace at most one element is sounding.
\<close>

lemma playback_order:
  "subseq (started (run evs (AudioQueue cb))) (arrivals evs) \<and>
   (\<not> list_ex is_clear evs \<longrightarrow>
      started (run evs (AudioQueue cb)) @ playable (queue (run evs (AudioQueue cb)))
        = playable (arrivals evs)) \<and>
   (orderly evs (AudioQueue cb) \<longrightarrow> length (sounding (run evs (AudioQueue cb))) \<le> 1)"
proof (intro conjI impI)
  show "subseq (started (run evs (AudioQueue cb))) (arrivals evs)"
    using started_subseq_lineup lineup_subseq by (rule subseq_order.trans)
  show "started (run evs (AudioQueue cb)) @ playable (queue (run evs (AudioQueue cb)))
        = playable (arrivals evs)" if "\<not> list_ex is_clear evs"
    using lineup_no_clear [OF that, of cb] by (simp add: lineup_def)
  show "length (sounding (run evs (AudioQueue cb))) \<le> 1" if "orderly evs (AudioQueue cb)"
    using that by (intro consistent_sounding consistent_run consistent_init)
qed

lemmas aq_defs =
  run_def enqueue_def initAudioContext_def playNext_def onPlaybackStateChange_def
  terminal_def onended_def onerror_def play_catch_def clear_def AudioQueue_def Let_def

text \<open>
  Claim C1 does not hold of the code. The handlers \<^verbatim>\<open>onerror\<close> and \<^verbatim>\<open>play().catch\<close>
  that \<^verbatim>\<open>playNext\<close> attaches to an element do not ask whether the element is still
  the current one. A source that cannot be loaded makes the browser fire the error
  event of the element and reject its \<^verbatim>\<open>play()\<close> promise, so both run. With three
  fragments enqueued and the first one unloadable, the error handler starts the second
  fragment; the rejection handler then lowers the flag that is meant to prevent
  concurrent playback and starts the third fragment while the second is sounding.
  The fragments are still started in their order of arrival.
\<close>

theorem C1_overlap:
  "sounding (run [Enqueue ''m'', Enqueue ''v'', Enqueue ''w'', Errored 0, PlayRejected 0]
      (AudioQueue True)) = [1, 2] \<and>
   started (run [Enqueue ''m'', Enqueue ''v'', Enqueue ''w'', Errored 0, PlayRejected 0]
      (AudioQueue True)) = [''m'', ''v'', ''w''] \<and>
   sounding (run [Enqueue ''m'', Enqueue ''v'', Enqueue ''w'', Errored 0]
      (AudioQueue True)) = [1] \<and>
   \<not> length (sounding (run [Enqueue ''m'', Enqueue ''v'', Enqueue ''w'', Errored 0, PlayRejected 0]
      (AudioQueue True))) \<le> 1"
  by (simp add: aq_defs)

subsection \<open>The playback-state callback\<close>




















subsection \<open>A fragment that fails\<close>

text \<open>
  When the failure of a fragment \<open>m\<close> makes the browser run one of the two failure
  handlers, once, the queue advances as it should: one error is logged and the
  fragment \<open>v\<close> behind it is playing at once; when \<open>v\<close> ends the sequencer is idle.
\<close>

lemma single_failure_advances:
  assumes "m \<noteq> []" "v \<noteq> []" "fail = Errored 0 \<or> fail = PlayRejected 0"
  shows "let s1 = run [Enqueue m, Enqueue v] (AudioQueue cb);
             s2 = step fail s1;
             s3 = step (Ended 1) s2
         in (isPlaying s1 \<and> sounding s1 = [0] \<and> started s1 = [m] \<and> queue s1 = [v] \<and>
               errorsLogged s1 = 0) \<and>
            (isPlaying s2 \<and> sounding s2 = [1] \<and> started s2 = [m, v] \<and> queue s2 = [] \<and>
               errorsLogged s2 = 1) \<and>
            (\<not> isPlaying s3 \<and> sounding s3 = [] \<and> started s3 = [m, v] \<and> queue s3 = [] \<and>
               errorsLogged s3 = 1 \<and>
               notified s3 = (if cb then [True, True, False] else []))"
proof -
  define s1 where "s1 = run [Enqueue m, Enqueue v] (AudioQueue cb)"
  have s1: "s1 = \<lparr>queue = [v], isPlaying = True, currentAudio = Some 0, audioContext = True,
      sourceNode = Some 0, hasCallback = cb, started = [m], sounding = [0],
      notified = (if cb then [True] else []), errorsLogged = 0\<rparr>"
    unfolding s1_def using assms(1)
    by (simp add: run_def enqueue_def initAudioContext_def playNext_def
          onPlaybackStateChange_def AudioQueue_def Let_def)
  define s2 where "s2 = step fail s1"
  have s2: "s2 = \<lparr>queue = [], isPlaying = True, currentAudio = Some 1, audioContext = True,
      sourceNode = Some 1, hasCallback = cb, started = [m, v], sounding = [1],
      notified = (if cb then [True, True] else []), errorsLogged = 1\<rparr>"
    using assms(3) assms(2) unfolding s2_def s1
    by (elim disjE)
       (simp_all add: terminal_def onerror_def play_catch_def playNext_def
          onPlaybackStateChange_def Let_def)
  define s3 where "s3 = step (Ended 1) s2"
  have s3: "s3 = \<lparr>queue = [], isPlaying = False, currentAudio = None, audioContext = True,
      sourceNode = Some 1, hasCallback = cb, started = [m, v], sounding = [],
      notified = (if cb then [True, True, False] else []), errorsLogged = 1\<rparr>"
    unfolding s3_def s2
    by (simp add: terminal_def onended_def playNext_def onPlaybackStateChange_def)
  show ?thesis
    unfolding Let_def s1_def [symmetric] s2_def [symmetric] s3_def [symmetric]
    by (simp add: s1 s2 s3)
qed

text \<open>
  Claim C7 does not hold of the code. A malformed fragment is one whose source cannot
  be loaded: the browser fires the error event of its element and rejects its
  \<^verbatim>\<open>play()\<close> promise, and \<^verbatim>\<open>playNext\<close> has attached a handler to each. Enqueue the
  malformed fragment, then a valid one. The error handler logs an error and starts
  the valid fragment. The rejection handler then logs a second error, disconnects
  the source node, which by now is the valid fragment's, lowers the playing flag and,
  finding the queue empty, reports \<open>idle\<close> while the valid fragment is sounding. When
  the valid fragment ends \<open>idle\<close> is reported once more.
\<close>

theorem C7_two_errors:
  "errorsLogged (run [Enqueue ''xx'', Enqueue ''ok'', Errored 0, PlayRejected 0]
      (AudioQueue True)) = 2 \<and>
   \<not> isPlaying (run [Enqueue ''xx'', Enqueue ''ok'', Errored 0, PlayRejected 0]
      (AudioQueue True)) \<and>
   sounding (run [Enqueue ''xx'', Enqueue ''ok'', Errored 0, PlayRejected 0]
      (AudioQueue True)) = [1] \<and>
   sourceNode (run [Enqueue ''xx'', Enqueue ''ok'', Errored 0]
      (AudioQueue True)) = Some 1 \<and>
   sourceNode (run [Enqueue ''xx'', Enqueue ''ok'', Errored 0, PlayRejected 0]
      (AudioQueue True)) = None \<and>
   notified (run [Enqueue ''xx'', Enqueue ''ok'', Errored 0, PlayRejected 0]
      (AudioQueue True)) = [True, True, False] \<and>
   notified (run [Enqueue ''xx'', Enqueue ''ok'', Errored 0, PlayRejected 0, Ended 1]
      (AudioQueue True)) = [True, True, False, False] \<and>
   errorsLogged (run [Enqueue [], Enqueue ''ok'', Ended 0] (AudioQueue True)) = 0"
  by (simp add: aq_defs)

section \<open>Properties of the strings and arrays\<close>

lemmas js_defs =
  startsWith_def endsWith_def substring_def splice1_def trim_def isWhiteSpace_def

lemmas store_defs =
  addMessage_def updateBotReply_def setStreamerState_def clearMessages_def useLiveStore_def

lemma indexOf_ge: "- 1 \<le> indexOf xs x"
  by (induction xs) (auto simp: Let_def)

lemma indexOf_absent: "indexOf xs x = - 1 \<longleftrightarrow> x \<notin> set xs"
proof (induction xs)
  case Nil
  show ?case by simp
next
  case (Cons y ys)
  have "- 1 \<le> indexOf ys x" by (rule indexOf_ge)
  with Cons show ?case by (auto simp: Let_def)
qed

lemma indexOf_first:
  assumes "x \<in> set xs"
  shows "0 \<le> indexOf xs x \<and> nat (indexOf xs x) < length xs \<and> xs ! nat (indexOf xs x) = x \<and>
         (\<forall>j < nat (indexOf xs x). xs ! j \<noteq> x)"
  using assms
proof (induction xs)
  case Nil
  then show ?case by simp
next
  case (Cons y ys)
  show ?case
  proof (cases "y = x")
    case True
    then show ?thesis by simp
  next
    case False
    with Cons.prems have mem: "x \<in> set ys" by simp
    then have ne: "indexOf ys x \<noteq> - 1" by (simp add: indexOf_absent)
    from Cons.IH [OF mem] have ih: "0 \<le> indexOf ys x" "nat (indexOf ys x) < length ys"
      "ys ! nat (indexOf ys x) = x" "\<forall>j < nat (indexOf ys x). ys ! j \<noteq> x"
      by simp_all
    have idx: "nat (indexOf (y # ys) x) = Suc (nat (indexOf ys x))"
      using False ne ih(1) by (simp add: Let_def nat_add_distrib)
    have "\<forall>j < Suc (nat (indexOf ys x)). (y # ys) ! j \<noteq> x"
      using False ih(4) by (auto simp: nth_Cons split: nat.splits)
    then show ?thesis
      using False ne ih unfolding idx by (simp add: Let_def)
  qed
qed

lemma splice1_indexOf:
  assumes "x \<in> set xs"
  shows "splice1 xs (indexOf xs x) = remove1 x xs"
  using assms
proof (induction xs)
  case Nil
  then show ?case by simp
next
  case (Cons y ys)
  show ?case
  proof (cases "y = x")
    case True
    then show ?thesis by (simp add: splice1_def)
  next
    case False
    with Cons.prems have mem: "x \<in> set ys" by simp
    then have ne: "indexOf ys x \<noteq> - 1" by (simp add: indexOf_absent)
    have ge: "0 \<le> indexOf ys x" using indexOf_first [OF mem] by simp
    have "nat (indexOf ys x + 1) = Suc (nat (indexOf ys x))"
      using ge by (simp add: nat_add_distrib)
    then show ?thesis
      using False ne Cons.IH [OF mem] by (simp add: splice1_def Let_def)
  qed
qed

lemma user_frame:
  "startsWith (''[USER:'' @ t @ '']'') ''[USER:''"
  "endsWith (''[USER:'' @ t @ '']'') '']''"
  "substring (''[USER:'' @ t @ '']'') 6 (int (length (''[USER:'' @ t @ '']'')) - 1) = t"
  by (simp_all add: startsWith_def endsWith_def substring_def Let_def)

section \<open>Properties of the transcript\<close>

lemma updateBotReply_snoc:
  "messages (updateBotReply chunk (st\<lparr>messages := ms @ [m]\<rparr>)) =
     (if role m = Model then ms @ [m\<lparr>content := content m @ chunk\<rparr>] else ms @ [m])"
  by (simp add: updateBotReply_def Let_def)

lemma updateBotReply_messages:
  "messages (updateBotReply chunk st) =
     (if messages st \<noteq> [] \<and> role (last (messages st)) = Model
      then butlast (messages st) @ [(last (messages st))\<lparr>content := content (last (messages st)) @ chunk\<rparr>]
      else messages st)"
proof (cases "messages st" rule: rev_cases)
  case Nil
  then show ?thesis by (simp add: updateBotReply_def)
next
  case (snoc ms m)
  then have "st = st\<lparr>messages := ms @ [m]\<rparr>" by simp
  then have "messages (updateBotReply chunk st) =
     (if role m = Model then ms @ [m\<lparr>content := content m @ chunk\<rparr>] else ms @ [m])"
    using updateBotReply_snoc [where chunk = chunk and st = st and ms = ms and m = m] by simp
  with snoc show ?thesis by simp
qed

text \<open>
  Claim C10. \<^verbatim>\<open>updateBotReply\<close> leaves the transcript as it is when the log is empty
  or its tail is not an assistant entry; otherwise it keeps the length of the log and
  every entry but the tail, and of the tail it keeps identifier, role and time and
  appends the chunk to the content. \<^verbatim>\<open>addMessage\<close> keeps every entry and adds one at
  the end. No other action of the store writes an entry: \<^verbatim>\<open>clearMessages\<close> empties
  the log, the remaining ones leave it alone.
\<close>

theorem C10_tail_only:
  "(messages st = [] \<or> role (last (messages st)) \<noteq> Model \<longrightarrow>
      messages (updateBotReply chunk st) = messages st) \<and>
   length (messages (updateBotReply chunk st)) = length (messages st) \<and>
   (\<forall>i. i + 1 < length (messages st) \<longrightarrow>
      messages (updateBotReply chunk st) ! i = messages st ! i) \<and>
   (messages st \<noteq> [] \<and> role (last (messages st)) = Model \<longrightarrow>
      last (messages (updateBotReply chunk st))
        = (last (messages st))\<lparr>content := content (last (messages st)) @ chunk\<rparr>) \<and>
   (messages st \<noteq> [] \<longrightarrow>
      id' (last (messages (updateBotReply chunk st))) = id' (last (messages st)) \<and>
      role (last (messages (updateBotReply chunk st))) = role (last (messages st)) \<and>
      timestamp (last (messages (updateBotReply chunk st))) = timestamp (last (messages st))) \<and>
   messages (addMessage msg st) = messages st @ [msg] \<and>
   (\<forall>i. i < length (messages st) \<longrightarrow> messages (addMessage msg st) ! i = messages st ! i) \<and>
   messages (clearMessages st) = [] \<and>
   messages (setStreamerState s st) = messages st \<and>
   messages (setOnlineCount n st) = messages st"
proof -
  have nth: "\<forall>i. i + 1 < length (messages st) \<longrightarrow>
      messages (updateBotReply chunk st) ! i = messages st ! i"
    by (auto simp: updateBotReply_messages nth_append nth_butlast)
  have rest: "messages (addMessage msg st) = messages st @ [msg]"
    "\<forall>i. i < length (messages st) \<longrightarrow> messages (addMessage msg st) ! i = messages st ! i"
    "messages (clearMessages st) = []" "messages (setStreamerState s st) = messages st"
    "messages (setOnlineCount n st) = messages st"
    by (simp_all add: addMessage_def clearMessages_def setStreamerState_def
          setOnlineCount_def nth_append)
  show ?thesis
    using nth rest by (simp add: updateBotReply_messages)
qed

theorem C10_tail_only_witness:
  "messages (updateBotReply '' there''
      \<lparr>messages = [\<lparr>id' = ''1'', role = User, content = ''q'', timestamp = 1\<rparr>,
                   \<lparr>id' = ''2'', role = Model, content = ''Hi'', timestamp = 2\<rparr>],
       streamerState = Idle, onlineCount = 1\<rparr>)
     = [\<lparr>id' = ''1'', role = User, content = ''q'', timestamp = 1\<rparr>,
        \<lparr>id' = ''2'', role = Model, content = ''Hi there'', timestamp = 2\<rparr>] \<and>
   messages (updateBotReply '' there''
      \<lparr>messages = [\<lparr>id' = ''2'', role = Model, content = ''Hi'', timestamp = 2\<rparr>,
                   \<lparr>id' = ''1'', role = User, content = ''q'', timestamp = 1\<rparr>],
       streamerState = Idle, onlineCount = 1\<rparr>)
     = [\<lparr>id' = ''2'', role = Model, content = ''Hi'', timestamp = 2\<rparr>,
        \<lparr>id' = ''1'', role = User, content = ''q'', timestamp = 1\<rparr>]"
  using C10_tail_only [of "\<lparr>messages = [\<lparr>id' = ''1'', role = User, content = ''q'', timestamp = 1\<rparr>,
                   \<lparr>id' = ''2'', role = Model, content = ''Hi'', timestamp = 2\<rparr>],
       streamerState = Idle, onlineCount = 1\<rparr>" "'' there''"]
    C10_tail_only [of "\<lparr>messages = [\<lparr>id' = ''2'', role = Model, content = ''Hi'', timestamp = 2\<rparr>,
                   \<lparr>id' = ''1'', role = User, content = ''q'', timestamp = 1\<rparr>],
       streamerState = Idle, onlineCount = 1\<rparr>" "'' there''"]
  by (simp add: updateBotReply_def)


section \<open>Properties of the connection hook\<close>

lemmas hook_defs =
  onmessage_def sendMessage_def withAudioQueue_def playbackCallback_def getIsPlaying_def
  connect_def handleConnect_def ws_onopen_def ws_onclose_def ws_onerror_def mounted_def
  crun_def

subsection \<open>Text tokens\<close>



text \<open>
  Claim C4 does not hold of the code. A text token that opens a reply, a message of
  another user, and a second text token: the second token is handed to
  \<^verbatim>\<open>updateBotReply\<close>, which finds another user's entry at the tail and does
  nothing. The transcript holds the first token and the user's message; the second
  token is lost.
\<close>

theorem C4_token_dropped:
  "map (\<lambda>m. (role m, content m))
     (messages (store (crun
        [(\<lparr>uuid = ''a'', now = 1\<rparr>, WsMessage ''Hi''),
         (\<lparr>uuid = ''b'', now = 2\<rparr>, WsMessage ''[USER:bob]''),
         (\<lparr>uuid = ''c'', now = 3\<rparr>, WsMessage '' there'')] (mounted ''star''))))
     = [(Model, ''Hi''), (OtherUser, ''bob'')] \<and>
   classify '' there'' = TextToken '' there''"
  by (simp add: hook_defs js_defs store_defs classify_def aq_defs)

subsection \<open>Echoes of the user's own messages\<close>

lemma onmessage_user:
  "onmessage e (''[USER:'' @ t @ '']'') c =
     (if t \<in> set (sentMessagesRef c)
      then c\<lparr>sentMessagesRef := remove1 t (sentMessagesRef c)\<rparr>
      else c\<lparr>store := addMessage
             \<lparr>id' = uuid e, role = OtherUser, content = t, timestamp = now e\<rparr> (store c)\<rparr>)"
proof -
  define msg where "msg = ''[USER:'' @ t @ '']''"
  have "startsWith msg ''[USER:''" "endsWith msg '']''"
    "substring msg 6 (int (length msg) - 1) = t"
    unfolding msg_def by (rule user_frame)+
  then show ?thesis
    unfolding msg_def [symmetric] onmessage_def
    by (simp add: Let_def indexOf_absent splice1_indexOf)
qed

lemma sendMessage_open:
  assumes "wsRef c = Some OPEN" "trim text \<noteq> []"
  shows "sendMessage e text c =
     c\<lparr>store := addMessage \<lparr>id' = uuid e, role = User, content = text, timestamp = now e\<rparr> (store c),
       sentMessagesRef := sentMessagesRef c @ [text],
       wire := wire c @ [text]\<rparr>"
  using assms by (simp add: sendMessage_def Let_def)

lemma trim_hello: "trim ''hello'' = ''hello''"
  by (simp add: trim_def isWhiteSpace_def)

text \<open>
  Claim C5. An accepted \<open>submit hello\<close> appends the user's entry and a pending record;
  the message \<open>[USER:hello]\<close> that follows adds nothing to the transcript and removes
  one pending \<open>hello\<close>. Without a pending \<open>hello\<close> the same message adds one entry,
  of another user, with content \<open>hello\<close>, and leaves the pending records alone. In
  general an echo of \<open>t\<close> with \<open>t\<close> pending removes the record at the first index
  that holds \<open>t\<close>, and no other.
\<close>

theorem C5_echo_suppressed:
  "(wsRef c = Some OPEN \<and> 2000 \<le> now e1 - lastSendTime b \<longrightarrow>
      (let c1 = snd (submit e1 ''hello'' (b, c));
           c2 = onmessage e2 ''[USER:hello]'' c1
       in messages (store c1) = messages (store c) @
            [\<lparr>id' = uuid e1, role = User, content = ''hello'', timestamp = now e1\<rparr>] \<and>
          wire c1 = wire c @ [''hello''] \<and>
          sentMessagesRef c1 = sentMessagesRef c @ [''hello''] \<and>
          messages (store c2) = messages (store c1) \<and>
          sentMessagesRef c2 = remove1 ''hello'' (sentMessagesRef c1) \<and>
          length (sentMessagesRef c2) = length (sentMessagesRef c))) \<and>
   (''hello'' \<notin> set (sentMessagesRef c) \<longrightarrow>
      messages (store (onmessage e2 ''[USER:hello]'' c)) = messages (store c) @
        [\<lparr>id' = uuid e2, role = OtherUser, content = ''hello'', timestamp = now e2\<rparr>] \<and>
      sentMessagesRef (onmessage e2 ''[USER:hello]'' c) = sentMessagesRef c) \<and>
   (t \<in> set (sentMessagesRef c) \<longrightarrow>
      (\<exists>i < length (sentMessagesRef c).
          sentMessagesRef c ! i = t \<and> (\<forall>j < i. sentMessagesRef c ! j \<noteq> t) \<and>
          sentMessagesRef (onmessage e2 (''[USER:'' @ t @ '']'') c)
            = take i (sentMessagesRef c) @ drop (Suc i) (sentMessagesRef c)) \<and>
      messages (store (onmessage e2 (''[USER:'' @ t @ '']'') c)) = messages (store c))"
proof (intro conjI impI)
  assume a: "wsRef c = Some OPEN \<and> 2000 \<le> now e1 - lastSendTime b"
  define c1 where "c1 = snd (submit e1 ''hello'' (b, c))"
  have c1: "c1 = sendMessage e1 ''hello'' c"
    using a by (simp add: c1_def submit_def setInputText_def trim_hello)
  have c1': "c1 = c\<lparr>store := addMessage
        \<lparr>id' = uuid e1, role = User, content = ''hello'', timestamp = now e1\<rparr> (store c),
       sentMessagesRef := sentMessagesRef c @ [''hello''],
       wire := wire c @ [''hello'']\<rparr>"
    unfolding c1 using a by (intro sendMessage_open) (simp_all add: trim_hello)
  have echo: "onmessage e2 ''[USER:hello]'' c1 =
      c1\<lparr>sentMessagesRef := remove1 ''hello'' (sentMessagesRef c1)\<rparr>"
    using onmessage_user [of e2 "''hello''" c1] by (simp add: c1')
  have "length (remove1 ''hello'' (sentMessagesRef c1)) = length (sentMessagesRef c)"
    by (simp add: c1' length_remove1)
  then show "let c1 = snd (submit e1 ''hello'' (b, c));
           c2 = onmessage e2 ''[USER:hello]'' c1
       in messages (store c1) = messages (store c) @
            [\<lparr>id' = uuid e1, role = User, content = ''hello'', timestamp = now e1\<rparr>] \<and>
          wire c1 = wire c @ [''hello''] \<and>
          sentMessagesRef c1 = sentMessagesRef c @ [''hello''] \<and>
          messages (store c2) = messages (store c1) \<and>
          sentMessagesRef c2 = remove1 ''hello'' (sentMessagesRef c1) \<and>
          length (sentMessagesRef c2) = length (sentMessagesRef c)"
    unfolding Let_def c1_def [symmetric] echo
    by (simp add: c1' addMessage_def)
next
  assume "''hello'' \<notin> set (sentMessagesRef c)"
  then have "onmessage e2 ''[USER:hello]'' c = c\<lparr>store := addMessage
             \<lparr>id' = uuid e2, role = OtherUser, content = ''hello'', timestamp = now e2\<rparr> (store c)\<rparr>"
    using onmessage_user [of e2 "''hello''" c] by simp
  then show "messages (store (onmessage e2 ''[USER:hello]'' c)) = messages (store c) @
        [\<lparr>id' = uuid e2, role = OtherUser, content = ''hello'', timestamp = now e2\<rparr>]"
    and "sentMessagesRef (onmessage e2 ''[USER:hello]'' c) = sentMessagesRef c"
    by (simp_all add: addMessage_def)
next
  assume t: "t \<in> set (sentMessagesRef c)"
  let ?i = "nat (indexOf (sentMessagesRef c) t)"
  have eq: "onmessage e2 (''[USER:'' @ t @ '']'') c
      = c\<lparr>sentMessagesRef := remove1 t (sentMessagesRef c)\<rparr>"
    unfolding onmessage_user using t by simp
  have "sentMessagesRef (onmessage e2 (''[USER:'' @ t @ '']'') c)
          = splice1 (sentMessagesRef c) (indexOf (sentMessagesRef c) t)"
    unfolding eq using t by (simp add: splice1_indexOf)
  then have "sentMessagesRef (onmessage e2 (''[USER:'' @ t @ '']'') c)
          = take ?i (sentMessagesRef c) @ drop (Suc ?i) (sentMessagesRef c)"
    by (simp add: splice1_def)
  with indexOf_first [OF t]
  show "\<exists>i < length (sentMessagesRef c).
          sentMessagesRef c ! i = t \<and> (\<forall>j < i. sentMessagesRef c ! j \<noteq> t) \<and>
          sentMessagesRef (onmessage e2 (''[USER:'' @ t @ '']'') c)
            = take i (sentMessagesRef c) @ drop (Suc i) (sentMessagesRef c)"
    by (intro exI [of _ ?i]) simp
  show "messages (store (onmessage e2 (''[USER:'' @ t @ '']'') c)) = messages (store c)"
    unfolding eq by simp
qed

theorem C5_echo_suppressed_witness:
  "wsRef ((mounted ''star'')\<lparr>wsRef := Some OPEN, sentMessagesRef := [''x'', ''y'', ''x'']\<rparr>)
     = Some OPEN \<and>
   2000 \<le> now \<lparr>uuid = ''a'', now = 5000\<rparr> - lastSendTime ChatBox \<and>
   ''hello'' \<notin> set [''x'', ''y'', ''x''] \<and> ''x'' \<in> set [''x'', ''y'', ''x''] \<and>
   sentMessagesRef (onmessage \<lparr>uuid = ''b'', now = 5001\<rparr> ''[USER:x]''
     ((mounted ''star'')\<lparr>wsRef := Some OPEN, sentMessagesRef := [''x'', ''y'', ''x'']\<rparr>))
     = [''y'', ''x''] \<and>
   messages (store (onmessage \<lparr>uuid = ''b'', now = 5001\<rparr> ''[USER:hello]''
     (snd (submit \<lparr>uuid = ''a'', now = 5000\<rparr> ''hello'' (ChatBox,
        (mounted ''star'')\<lparr>wsRef := Some OPEN, sentMessagesRef := [''x'', ''y'', ''x'']\<rparr>)))))
     = [\<lparr>id' = ''a'', role = User, content = ''hello'', timestamp = 5000\<rparr>]"
  using C5_echo_suppressed [of
      "(mounted ''star'')\<lparr>wsRef := Some OPEN, sentMessagesRef := [''x'', ''y'', ''x'']\<rparr>"
      "\<lparr>uuid = ''a'', now = 5000\<rparr>" ChatBox "\<lparr>uuid = ''b'', now = 5001\<rparr>" "''x''"]
  by (simp add: hook_defs js_defs store_defs submit_def setInputText_def ChatBox_def Let_def)

subsection \<open>Sending\<close>

lemma sendMessage_blank:
  "trim text = [] \<Longrightarrow> sendMessage e text c = c"
  by (simp add: sendMessage_def)

text \<open>
  Claim C8. Let a first submission be accepted at time \<open>now e1\<close> on an open
  connection. A second one less than 2000 milliseconds later changes nothing in the
  client, so no transcript entry and nothing on the wire, raises the cooldown flag
  and sets a timer with a positive delay, the rest of the 2000 milliseconds. The
  indicator is transient: what the timer runs lowers the flag again and changes
  nothing else. A third submission, 2000 milliseconds or more after the first, with
  a text that is not blank, is accepted: its entry is appended and its text sent. A
  blank text is never accepted, whatever the time.
\<close>

theorem C8_cooldown:
  assumes "wsRef c = Some OPEN"
    and "2000 \<le> now e1 - lastSendTime b" and "trim text1 \<noteq> []"
    and "now e2 - now e1 < 2000"
    and "2000 \<le> now e3 - now e1" and "trim text3 \<noteq> []"
  shows "let bc1 = submit e1 text1 (b, c);
             bc2 = submit e2 text2 bc1;
             bc3 = submit e3 text3 (cooldownOver (fst bc2), snd bc2)
         in (messages (store (snd bc1)) = messages (store c) @
               [\<lparr>id' = uuid e1, role = User, content = text1, timestamp = now e1\<rparr>] \<and>
             wire (snd bc1) = wire c @ [text1] \<and> lastSendTime (fst bc1) = now e1) \<and>
            (snd bc2 = snd bc1 \<and> isCooldown (fst bc2) \<and>
             timeouts (fst bc2) = timeouts b @ [2000 - (now e2 - now e1)] \<and>
             0 < 2000 - (now e2 - now e1) \<and>
             lastSendTime (fst bc2) = now e1) \<and>
            (\<not> isCooldown (cooldownOver (fst bc2)) \<and>
             cooldownOver (fst bc2) = (fst bc2)\<lparr>isCooldown := False\<rparr> \<and>
             lastSendTime (cooldownOver (fst bc2)) = now e1 \<and>
             inputText (cooldownOver (fst bc2)) = text2) \<and>
            (messages (store (snd bc3)) = messages (store (snd bc1)) @
               [\<lparr>id' = uuid e3, role = User, content = text3, timestamp = now e3\<rparr>] \<and>
             wire (snd bc3) = wire (snd bc1) @ [text3] \<and> lastSendTime (fst bc3) = now e3) \<and>
            (\<forall>e t b' c'. trim t = [] \<longrightarrow> snd (submit e t (b', c')) = c')"
proof -
  define bc1 where "bc1 = submit e1 text1 (b, c)"
  define bc2 where "bc2 = submit e2 text2 bc1"
  define bc3 where "bc3 = submit e3 text3 (cooldownOver (fst bc2), snd bc2)"
  have bc1: "bc1 = (b\<lparr>inputText := [], lastSendTime := now e1, isScrolledToBottom := True\<rparr>,
       c\<lparr>store := addMessage
            \<lparr>id' = uuid e1, role = User, content = text1, timestamp = now e1\<rparr> (store c),
         sentMessagesRef := sentMessagesRef c @ [text1], wire := wire c @ [text1]\<rparr>)"
    using assms(1-3) by (simp add: bc1_def submit_def setInputText_def sendMessage_open)
  have bc2: "bc2 = ((fst bc1)\<lparr>inputText := text2, isCooldown := True,
                      timeouts := timeouts b @ [2000 - (now e2 - now e1)]\<rparr>, snd bc1)"
    using assms(4) by (simp add: bc2_def bc1 submit_def setInputText_def)
  have "wsRef (snd bc2) = Some OPEN"
    using assms(1) by (simp add: bc2 bc1)
  then have bc3: "bc3 =
      ((fst bc2)\<lparr>isCooldown := False, inputText := [], lastSendTime := now e3,
                  isScrolledToBottom := True\<rparr>,
       (snd bc2)\<lparr>store := addMessage
            \<lparr>id' = uuid e3, role = User, content = text3, timestamp = now e3\<rparr> (store (snd bc2)),
         sentMessagesRef := sentMessagesRef (snd bc2) @ [text3],
         wire := wire (snd bc2) @ [text3]\<rparr>)"
    using assms(5,6)
    by (simp add: bc3_def bc2 bc1 submit_def setInputText_def cooldownOver_def sendMessage_open)
  have blank: "\<forall>e t b' c'. trim t = [] \<longrightarrow> snd (submit e t (b', c')) = c'"
    by (simp add: submit_def setInputText_def)
  show ?thesis
    unfolding Let_def bc1_def [symmetric] bc2_def [symmetric] bc3_def [symmetric]
    using blank assms(4) by (simp add: bc3 bc2 bc1 addMessage_def cooldownOver_def)
qed

theorem C8_cooldown_witness:
  "wsRef ((mounted ''star'')\<lparr>wsRef := Some OPEN\<rparr>) = Some OPEN \<and>
   2000 \<le> now \<lparr>uuid = ''a'', now = 5000\<rparr> - lastSendTime ChatBox \<and>
   trim ''one'' \<noteq> [] \<and>
   now \<lparr>uuid = ''b'', now = 6999\<rparr> - now \<lparr>uuid = ''a'', now = 5000\<rparr> < 2000 \<and>
   2000 \<le> now \<lparr>uuid = ''c'', now = 7000\<rparr> - now \<lparr>uuid = ''a'', now = 5000\<rparr> \<and>
   trim ''three'' \<noteq> [] \<and>
   wire (snd (submit \<lparr>uuid = ''a'', now = 5000\<rparr> ''one''
      (ChatBox, (mounted ''star'')\<lparr>wsRef := Some OPEN\<rparr>))) = [''one''] \<and>
   snd (submit \<lparr>uuid = ''b'', now = 6999\<rparr> ''two''
      (submit \<lparr>uuid = ''a'', now = 5000\<rparr> ''one''
         (ChatBox, (mounted ''star'')\<lparr>wsRef := Some OPEN\<rparr>)))
     = snd (submit \<lparr>uuid = ''a'', now = 5000\<rparr> ''one''
         (ChatBox, (mounted ''star'')\<lparr>wsRef := Some OPEN\<rparr>)) \<and>
   isCooldown (fst (submit \<lparr>uuid = ''b'', now = 6999\<rparr> ''two''
      (submit \<lparr>uuid = ''a'', now = 5000\<rparr> ''one''
         (ChatBox, (mounted ''star'')\<lparr>wsRef := Some OPEN\<rparr>)))) \<and>
   \<not> isCooldown (cooldownOver (fst (submit \<lparr>uuid = ''b'', now = 6999\<rparr> ''two''
      (submit \<lparr>uuid = ''a'', now = 5000\<rparr> ''one''
         (ChatBox, (mounted ''star'')\<lparr>wsRef := Some OPEN\<rparr>)))))"
proof -
  have h: "wsRef ((mounted ''star'')\<lparr>wsRef := Some OPEN\<rparr>) = Some OPEN"
    "2000 \<le> now \<lparr>uuid = ''a'', now = 5000\<rparr> - lastSendTime ChatBox"
    "trim ''one'' \<noteq> []"
    "now \<lparr>uuid = ''b'', now = 6999\<rparr> - now \<lparr>uuid = ''a'', now = 5000\<rparr> < 2000"
    "2000 \<le> now \<lparr>uuid = ''c'', now = 7000\<rparr> - now \<lparr>uuid = ''a'', now = 5000\<rparr>"
    "trim ''three'' \<noteq> []"
    by (simp_all add: ChatBox_def trim_def isWhiteSpace_def)
  have w: "wire ((mounted ''star'')\<lparr>wsRef := Some OPEN\<rparr>) = []"
    by (simp add: mounted_def)
  from C8_cooldown [OF h, of "''two''"] h w show ?thesis
    unfolding Let_def by simp
qed

subsection \<open>Opening the connection\<close>

text \<open>
  Claim C9, as it is written, fails: a connection that is closed while a reply is in
  reception and then opened again leaves the presentation state \<open>Thinking\<close>.
\<close>

theorem C9_counterexample:
  "streamerState (store (crun
      [(\<lparr>uuid = ''a'', now = 1\<rparr>, Connect), (\<lparr>uuid = ''b'', now = 2\<rparr>, WsOpen),
       (\<lparr>uuid = ''c'', now = 3\<rparr>, WsMessage ''Hi''), (\<lparr>uuid = ''d'', now = 4\<rparr>, WsClose),
       (\<lparr>uuid = ''e'', now = 5\<rparr>, Connect), (\<lparr>uuid = ''f'', now = 6\<rparr>, WsOpen)]
      (mounted ''star''))) = Thinking \<and>
   Thinking \<noteq> Idle"
  by (simp add: hook_defs js_defs store_defs aq_defs)

text \<open>
  Claim C9, amended. \<^verbatim>\<open>handleConnect\<close> empties the transcript, and the opening of
  the socket it has made appends the connection notice: after the opening the
  transcript is that one system entry, with nothing from before. Neither step writes
  the presentation state, which is \<open>Idle\<close> when the hook has just been mounted.
\<close>

theorem C9_open_resets_transcript:
  assumes "roomId c \<noteq> []"
  shows "messages (store (cstep (e1, Connect) c)) = [] \<and>
         messages (store (cstep (e2, WsOpen) (cstep (e1, Connect) c)))
           = [\<lparr>id' = uuid e2, role = System, content = connectedNotice (roomId c),
               timestamp = now e2\<rparr>] \<and>
         status (cstep (e2, WsOpen) (cstep (e1, Connect) c)) = Connected \<and>
         streamerState (store (cstep (e2, WsOpen) (cstep (e1, Connect) c)))
           = streamerState (store c) \<and>
         streamerState (store (mounted (roomId c))) = Idle"
  using assms
  by (simp add: handleConnect_def connect_def clearMessages_def ws_onopen_def addMessage_def
        mounted_def useLiveStore_def Let_def)

theorem C9_open_resets_transcript_witness:
  "roomId ((mounted ''star'')\<lparr>store := \<lparr>messages =
       [\<lparr>id' = ''z'', role = User, content = ''old'', timestamp = 0\<rparr>],
       streamerState = Thinking, onlineCount = 1\<rparr>\<rparr>) \<noteq> [] \<and>
   map content (messages (store (cstep (\<lparr>uuid = ''b'', now = 2\<rparr>, WsOpen)
     (cstep (\<lparr>uuid = ''a'', now = 1\<rparr>, Connect)
       ((mounted ''star'')\<lparr>store := \<lparr>messages =
          [\<lparr>id' = ''z'', role = User, content = ''old'', timestamp = 0\<rparr>],
          streamerState = Thinking, onlineCount = 1\<rparr>\<rparr>)))))
     = [connectedNotice ''star''] \<and>
   streamerState (store (cstep (\<lparr>uuid = ''b'', now = 2\<rparr>, WsOpen)
     (cstep (\<lparr>uuid = ''a'', now = 1\<rparr>, Connect)
       ((mounted ''star'')\<lparr>store := \<lparr>messages =
          [\<lparr>id' = ''z'', role = User, content = ''old'', timestamp = 0\<rparr>],
          streamerState = Thinking, onlineCount = 1\<rparr>\<rparr>)))) = Thinking"
  using C9_open_resets_transcript [of "(mounted ''star'')\<lparr>store := \<lparr>messages =
       [\<lparr>id' = ''z'', role = User, content = ''old'', timestamp = 0\<rparr>],
       streamerState = Thinking, onlineCount = 1\<rparr>\<rparr>"
      "\<lparr>uuid = ''a'', now = 1\<rparr>" "\<lparr>uuid = ''b'', now = 2\<rparr>"]
  by (simp add: mounted_def)


subsection \<open>The presentation state\<close>


















end
